theory Spec2Isabelle
  imports Main "HOL-Library.Sublist" "HOL-Library.List_Lexorder" "HOL-Library.Char_ord"
begin

section \<open>Strings\<close>

text \<open>
  A Python \<open>str\<close> is modelled as a \<open>string\<close>: one \<open>char\<close> per code point. The type \<open>char\<close>
  holds the code points below 256 (ASCII and Latin-1), so the model covers the sheet
  names, file names, column names, cell texts and patterns written with them.
\<close>

subsection \<open>The name sanitizer (excel_combiner.py, lines 34-41)\<close>

text \<open>
  \<^verbatim>\<open>invalid_chars = r'[/\\*?:[\]]'\<close> is one character class; its members are
  \<^verbatim>\<open>/ \ * ? : [ ]\<close> (the backslash and the closing bracket are escaped inside the class).
\<close>

definition invalid_chars :: "char list" where
  "invalid_chars = [CHR ''/'', CHR 0x5C, CHR ''*'', CHR ''?'', CHR '':'', CHR ''['', CHR '']'']"

text \<open>
  \<^verbatim>\<open>re.sub(invalid_chars, '_', sheet_name)\<close>: the scan goes left to right; a character of the
  class is a match of length one and is replaced, any other character is copied.
\<close>

fun re_sub_invalid :: "string \<Rightarrow> string" where
  "re_sub_invalid [] = []"
| "re_sub_invalid (c # cs) =
     (if c \<in> set invalid_chars then CHR ''_'' # re_sub_invalid cs else c # re_sub_invalid cs)"

definition sanitize_sheet_name :: "string \<Rightarrow> string" where
  "sanitize_sheet_name sheet_name =
     (let sanitized = re_sub_invalid sheet_name;
          sanitized = take 31 sanitized
      in sanitized)"

section \<open>Tables, exceptions and the session state\<close>

text \<open>
  A cell of a pandas \<open>DataFrame\<close> read by \<open>pd.read_excel\<close> is either missing (\<open>NaN\<close>) or a
  value; a value is represented by the text \<open>str()\<close> gives it, the only view the program
  takes of it. A row maps column names to cells (a name it does not map reads as \<open>NaN\<close>, as
  in a frame built from records); a frame is its column index and its rows in order.
\<close>

datatype cell = NaN | Val string

type_synonym row = "string \<rightharpoonup> cell"

record dataframe =
  columns :: "string list"
  rows :: "row list"

text \<open>An exception, with the text \<open>str(e)\<close> gives it.\<close>

datatype exn = BadZipFile string | Error string

fun str_exn :: "exn \<Rightarrow> string" where
  "str_exn (BadZipFile m) = m"
| "str_exn (Error m) = m"

text \<open>\<open>st.session_state\<close> (lines 25-29).\<close>

record session_state =
  processed_sheets :: int
  error_sheets :: "string list"
  column_options :: "string list"
  preview_data :: "(string \<times> dataframe) list option"

definition log_error :: "string \<Rightarrow> session_state \<Rightarrow> session_state" where
  \<comment> \<open>\<open>st.session_state.error_sheets.append(msg)\<close>\<close>
  "log_error msg st = st\<lparr>error_sheets := error_sheets st @ [msg]\<rparr>"

section \<open>The pandas operations the filter uses\<close>

definition getitem :: "dataframe \<Rightarrow> string \<Rightarrow> cell list" where
  \<comment> \<open>\<open>df[column]\<close>: the column's cells, one per row\<close>
  "getitem df column = map (\<lambda>r. case r column of None \<Rightarrow> NaN | Some c \<Rightarrow> c) (rows df)"

text \<open>
  \<open>Series.astype(str)\<close> (pandas before 3.0) applies \<open>str\<close> to every element, the missing
  ones too: \<open>NaN\<close> becomes the text \<open>nan\<close>. No element is missing afterwards, so the
  \<open>na=False\<close> of the call that follows never applies.
\<close>

fun astype_str :: "cell \<Rightarrow> string" where
  "astype_str NaN = ''nan''"
| "astype_str (Val s) = s"

subsection \<open>Regular expressions\<close>

text \<open>
  \<open>Series.str.contains(value, case=False, na=False)\<close> leaves \<open>regex\<close> at its default
  \<open>True\<close>: \<open>value\<close> is compiled by \<open>re.compile(value, re.IGNORECASE)\<close> (which raises
  \<open>re.error\<close> on a malformed pattern, before any row is looked at) and an element
  passes when \<open>search\<close> finds a match in it.

  The characters with a meaning of their own in a pattern:
\<close>

definition metachars :: "char list" where
  "metachars = [CHR ''.'', CHR ''^'', CHR ''$'', CHR ''*'', CHR ''+'', CHR ''?'', CHR ''{'',
                CHR ''}'', CHR ''['', CHR '']'', CHR 0x5C, CHR ''|'', CHR ''('', CHR '')'']"

text \<open>
  Under \<open>re.IGNORECASE\<close> two characters match when their lower-case forms are equal. Below
  256 the characters with a lower-case form of their own are \<open>A\<close> to \<open>Z\<close> and the Latin-1
  capitals \<open>0xC0\<close> to \<open>0xDE\<close> without the multiplication sign \<open>0xD7\<close>; the form is 32 code
  points up, as \<open>str.lower\<close> gives it.
\<close>

definition upper_letters :: "char list" where
  "upper_letters =
     ''ABCDEFGHIJKLMNOPQRSTUVWXYZ'' @
     [CHR 0xC0, CHR 0xC1, CHR 0xC2, CHR 0xC3, CHR 0xC4, CHR 0xC5, CHR 0xC6, CHR 0xC7,
      CHR 0xC8, CHR 0xC9, CHR 0xCA, CHR 0xCB, CHR 0xCC, CHR 0xCD, CHR 0xCE, CHR 0xCF,
      CHR 0xD0, CHR 0xD1, CHR 0xD2, CHR 0xD3, CHR 0xD4, CHR 0xD5, CHR 0xD6,
      CHR 0xD8, CHR 0xD9, CHR 0xDA, CHR 0xDB, CHR 0xDC, CHR 0xDD, CHR 0xDE]"

definition lower_letters :: "char list" where
  "lower_letters =
     ''abcdefghijklmnopqrstuvwxyz'' @
     [CHR 0xE0, CHR 0xE1, CHR 0xE2, CHR 0xE3, CHR 0xE4, CHR 0xE5, CHR 0xE6, CHR 0xE7,
      CHR 0xE8, CHR 0xE9, CHR 0xEA, CHR 0xEB, CHR 0xEC, CHR 0xED, CHR 0xEE, CHR 0xEF,
      CHR 0xF0, CHR 0xF1, CHR 0xF2, CHR 0xF3, CHR 0xF4, CHR 0xF5, CHR 0xF6,
      CHR 0xF8, CHR 0xF9, CHR 0xFA, CHR 0xFB, CHR 0xFC, CHR 0xFD, CHR 0xFE]"

definition lower :: "char \<Rightarrow> char" where
  "lower c = (case map_of (zip upper_letters lower_letters) c of Some l \<Rightarrow> l | None \<Rightarrow> c)"

text \<open>
  Patterns made of ordinary characters and \<open>.\<close> are modelled in full: an ordinary
  character matches itself up to case, \<open>.\<close> matches any character but a newline, and
  \<open>search\<close> tries every start position.
\<close>

definition atom :: "char \<Rightarrow> char \<Rightarrow> bool" where
  "atom p c = (if p = CHR ''.'' then c \<noteq> CHR 0x0A else lower p = lower c)"

fun match_here :: "string \<Rightarrow> string \<Rightarrow> bool" where
  "match_here [] s = True"
| "match_here (p # ps) [] = False"
| "match_here (p # ps) (c # cs) = (atom p c \<and> match_here ps cs)"

fun search :: "string \<Rightarrow> string \<Rightarrow> bool" where
  "search pat [] = match_here pat []"
| "search pat (c # cs) = (match_here pat (c # cs) \<or> search pat cs)"

text \<open>
  A compiled pattern is its \<open>search\<close> predicate. A pattern that starts with a quantifier
  does not compile; the error reads \<open>nothing to repeat at position 0\<close> when the pattern
  holds no newline (which would add a line and a column to the text) and is not a
  quantifier followed by a lone backslash (whose bad escape is reported first). What
  \<open>re.compile\<close> does with the rest of the pattern language is not modelled: it is the
  parameter \<open>re_other\<close>, and every theorem below holds whatever it is.
\<close>

type_synonym regex = "string \<Rightarrow> bool"

type_synonym re_lib = "string \<Rightarrow> exn + regex"

definition simple_pattern :: "string \<Rightarrow> bool" where
  "simple_pattern pat = list_all (\<lambda>c. c = CHR ''.'' \<or> c \<notin> set metachars) pat"

definition re_compile :: "re_lib \<Rightarrow> string \<Rightarrow> exn + regex" where
  "re_compile re_other pat =
     (if simple_pattern pat then Inr (search pat)
      else if pat \<noteq> [] \<and> hd pat \<in> {CHR ''*'', CHR ''+'', CHR ''?''} \<and>
              CHR 0x0A \<notin> set pat \<and> tl pat \<noteq> [CHR 0x5C]
      then Inl (Error ''nothing to repeat at position 0'')
      else re_other pat)"

definition str_contains :: "re_lib \<Rightarrow> string list \<Rightarrow> string \<Rightarrow> exn + bool list" where
  \<comment> \<open>\<open>series.str.contains(value, case=False, na=False)\<close> on a series of texts\<close>
  "str_contains re_other series pat =
     (case re_compile re_other pat of
        Inl e \<Rightarrow> Inl e
      | Inr rx \<Rightarrow> Inr (map rx series))"

section \<open>The filter engine (excel_combiner.py, lines 77-91)\<close>

type_synonym condition = "string \<times> string"

text \<open>
  The loop of lines 80-87; \<open>msk\<close> is the source's \<open>mask\<close>, \<open>None\<close> until a condition
  contributes.
\<close>

fun filter_loop ::
  "re_lib \<Rightarrow> dataframe \<Rightarrow> condition list \<Rightarrow> string \<Rightarrow> bool list option \<Rightarrow> exn + bool list option"
where
  "filter_loop re_other df [] logic msk = Inr msk"
| "filter_loop re_other df ((column, value) # conds) logic msk =
     (if column \<in> set (columns df)
      then (case str_contains re_other (map astype_str (getitem df column)) value of
              Inl e \<Rightarrow> Inl e
            | Inr current_mask \<Rightarrow>
                filter_loop re_other df conds logic
                  (Some (case msk of
                           None \<Rightarrow> current_mask
                         | Some m \<Rightarrow>
                             if logic = ''AND'' then map2 (\<and>) m current_mask
                             else map2 (\<or>) m current_mask)))
      else filter_loop re_other df conds logic msk)"

definition boolean_index :: "dataframe \<Rightarrow> bool list \<Rightarrow> dataframe" where
  \<comment> \<open>\<open>df[mask]\<close>: the rows whose mask entry is true, in order\<close>
  "boolean_index df msk = df\<lparr>rows := map fst (filter snd (zip (rows df) msk))\<rparr>"

definition filter_try :: "re_lib \<Rightarrow> dataframe \<Rightarrow> condition list \<Rightarrow> string \<Rightarrow> exn + dataframe" where
  \<comment> \<open>the body of the \<open>try\<close>, lines 80-88\<close>
  "filter_try re_other df filter_conditions logic =
     (case filter_loop re_other df filter_conditions logic None of
        Inl e \<Rightarrow> Inl e
      | Inr None \<Rightarrow> Inr df
      | Inr (Some msk) \<Rightarrow> Inr (boolean_index df msk))"

definition apply_filters ::
  "re_lib \<Rightarrow> dataframe \<Rightarrow> condition list \<Rightarrow> string \<Rightarrow> session_state \<Rightarrow> dataframe \<times> session_state"
where
  "apply_filters re_other df filter_conditions logic st =
     (case filter_try re_other df filter_conditions logic of
        Inr result \<Rightarrow> (result, st)
      | Inl e \<Rightarrow> (df, log_error (''Error applying filters: '' @ str_exn e) st))"

section \<open>Processing one workbook (excel_combiner.py, lines 93-131)\<close>

definition rfind :: "string \<Rightarrow> char \<Rightarrow> int" where
  \<comment> \<open>\<open>p.rfind(c)\<close>: the last index of \<open>c\<close>, or \<open>-1\<close>\<close>
  "rfind p c =
     (if c \<in> set p then int (length p) - 1 - int (length (takeWhile (\<lambda>x. x \<noteq> c) (rev p)))
      else - 1)"

text \<open>
  \<open>os.path.splitext(p)[0]\<close>, as \<open>posixpath\<close> computes it: the last dot splits the name when
  it comes after the last \<open>/\<close> and some character between the two is not a dot.
\<close>

definition splitext_root :: "string \<Rightarrow> string" where
  "splitext_root p =
     (let sepIndex = rfind p CHR ''/'';
          dotIndex = rfind p CHR ''.''
      in if dotIndex > sepIndex \<and>
            list_ex (\<lambda>c. c \<noteq> CHR ''.'')
              (take (nat (dotIndex - (sepIndex + 1))) (drop (nat (sepIndex + 1)) p))
         then take (nat dotIndex) p
         else p)"

definition df_empty :: "dataframe \<Rightarrow> bool" where
  \<comment> \<open>\<open>df.empty\<close>: an axis of length 0\<close>
  "df_empty df = (rows df = [] \<or> columns df = [])"

definition df_head :: "nat \<Rightarrow> dataframe \<Rightarrow> dataframe" where
  \<comment> \<open>\<open>df.head(n)\<close>\<close>
  "df_head n df = df\<lparr>rows := take n (rows df)\<rparr>"

type_synonym named_sheets = "(string \<times> dataframe) list"

text \<open>
  What \<open>pd.read_excel(file_content, sheet_name=None, engine='openpyxl')\<close> makes of a file's
  bytes: the exception it raises, or the sheets by name in workbook order.
\<close>

type_synonym workbook = "exn + (string \<times> dataframe) list"

text \<open>
  The loop of lines 102-127 with its accumulators (\<open>preview_list\<close> is the source's local
  \<open>preview_data\<close>). \<open>st.warning\<close> and \<open>st.write\<close> only render
  text and are left out. Nothing in the inner \<open>try\<close> raises on a frame (\<open>apply_filters\<close>
  catches its own failures), so its \<open>except\<close> branch has no counterpart here.
\<close>

fun process_sheets ::
  "re_lib \<Rightarrow> string \<Rightarrow> condition list \<Rightarrow> string \<Rightarrow> bool \<Rightarrow> (string \<times> dataframe) list \<Rightarrow>
   named_sheets \<Rightarrow> named_sheets \<Rightarrow> session_state \<Rightarrow> (named_sheets \<times> named_sheets) \<times> session_state"
where
  "process_sheets re_other file_name filter_conditions logic preview [] processed preview_list st =
     ((processed, preview_list), st)"
| "process_sheets re_other file_name filter_conditions logic preview ((sheet_name, df) # sheets)
     processed preview_list st =
     (let sanitized_sheet_name = sanitize_sheet_name sheet_name;
          base_filename = splitext_root file_name;
          sanitized_filename = sanitize_sheet_name base_filename;
          new_sheet_name = take 31 (sanitized_sheet_name @ ''_'' @ sanitized_filename)
      in if df_empty df
         then process_sheets re_other file_name filter_conditions logic preview sheets
                processed preview_list
                (log_error (sheet_name @ '' in '' @ file_name @ '': Sheet is empty'') st)
         else (case apply_filters re_other df filter_conditions logic st of
                 (df_filtered, st1) \<Rightarrow>
                   if df_empty df_filtered
                   then process_sheets re_other file_name filter_conditions logic preview sheets
                          processed preview_list
                          (log_error
                             (sheet_name @ '' in '' @ file_name @ '': No rows remain after filtering'')
                             st1)
                   else process_sheets re_other file_name filter_conditions logic preview sheets
                          (processed @ [(new_sheet_name, df_filtered)])
                          (if preview then preview_list @ [(new_sheet_name, df_head 5 df_filtered)]
                           else preview_list)
                          (st1\<lparr>processed_sheets := processed_sheets st1 + 1\<rparr>)))"

definition process_excel_file ::
  "re_lib \<Rightarrow> workbook \<Rightarrow> string \<Rightarrow> condition list \<Rightarrow> string \<Rightarrow> bool \<Rightarrow> session_state \<Rightarrow>
   (named_sheets \<times> named_sheets) \<times> session_state"
where
  "process_excel_file re_other file_content file_name filter_conditions logic preview st =
     (case file_content of
        Inl e \<Rightarrow>
          (([], []), log_error (''Error processing '' @ file_name @ '': '' @ str_exn e) st)
      | Inr sheets \<Rightarrow>
          if sheets = []
          then (([], []), log_error (file_name @ '': No sheets found'') st)
          else process_sheets re_other file_name filter_conditions logic preview sheets [] [] st)"

section \<open>The script (excel_combiner.py, lines 133-272)\<close>

text \<open>
  A member of the archive: \<open>z.open(file_name)\<close> and \<open>f.read()\<close> raise, or give the bytes
  that \<open>pd.read_excel\<close> then parses. The archive is the list of its members by name, in
  \<open>namelist()\<close> order (names are unique, so \<open>z.open\<close> of a listed name is that member).
\<close>

type_synonym member = "exn + workbook"

type_synonym archive = "(string \<times> member) list"

definition endswith :: "string \<Rightarrow> string \<Rightarrow> bool" where
  "endswith s suf = suffix suf s"

text \<open>
  \<open>get_column_options\<close> (lines 43-75), called with the archive the script has just opened.
  It returns the sorted distinct column names and logs what it skips; \<open>names\<close> is the
  source's local \<open>column_options\<close>.
\<close>

fun sheet_columns ::
  "string \<Rightarrow> (string \<times> dataframe) list \<Rightarrow> string list \<Rightarrow> session_state \<Rightarrow> string list \<times> session_state"
where
  "sheet_columns file_name [] names st = (names, st)"
| "sheet_columns file_name ((sheet_name, df) # sheets) names st =
     (if df_empty df
      then sheet_columns file_name sheets names
             (log_error (sheet_name @ '' in '' @ file_name @ '': Sheet is empty'') st)
      else sheet_columns file_name sheets (names @ columns df) st)"

fun column_scan :: "archive \<Rightarrow> string list \<Rightarrow> session_state \<Rightarrow> string list \<times> session_state" where
  "column_scan [] names st = (names, st)"
| "column_scan ((file_name, m) # excel_files) names st =
     (if \<not> endswith file_name ''.xlsx''
      then column_scan excel_files names
             (log_error (''Skipped '' @ file_name @ '': Not an Excel file (.xlsx)'') st)
      else (case (case m of Inl e \<Rightarrow> Inl e | Inr content \<Rightarrow> content) of
              Inl (BadZipFile msg) \<Rightarrow>
                column_scan excel_files names
                  (log_error (''Error reading '' @ file_name @ '': Corrupted or invalid Excel file'') st)
            | Inl (Error msg) \<Rightarrow>
                column_scan excel_files names
                  (log_error (''Error reading '' @ file_name @ '': '' @ msg) st)
            | Inr sheets \<Rightarrow>
                if sheets = []
                then column_scan excel_files names
                       (log_error (file_name @ '': No sheets found'') st)
                else (case sheet_columns file_name sheets names st of
                        (names1, st1) \<Rightarrow>
                          column_scan excel_files names1
                            (if names1 = []
                             then log_error (file_name @ '': No valid columns found in any sheet'') st1
                             else st1))))"

definition get_column_options :: "archive \<Rightarrow> session_state \<Rightarrow> string list \<times> session_state" where
  "get_column_options excel_files st =
     (case column_scan excel_files [] st of
        (names, st1) \<Rightarrow> (sort (remdups names), st1))"

text \<open>
  The two button loops (lines 186-198 and 219-231). A member that cannot be opened raises
  out of the loop, to the script's outer \<open>except\<close>; what was logged and counted before
  stays in the session state.
\<close>

fun preview_loop ::
  "re_lib \<Rightarrow> archive \<Rightarrow> condition list \<Rightarrow> string \<Rightarrow> session_state \<Rightarrow> exn option \<times> session_state"
where
  "preview_loop re_other [] filter_conditions logic st = (None, st)"
| "preview_loop re_other ((file_name, m) # excel_files) filter_conditions logic st =
     (case m of
        Inl e \<Rightarrow> (Some e, st)
      | Inr file_content \<Rightarrow>
          (case process_excel_file re_other file_content file_name filter_conditions logic True st of
             ((sheets, preview_data1), st1) \<Rightarrow>
               (case preview_data st1 of
                  None \<Rightarrow> (Some (Error ''NoneType object has no attribute extend''), st1)
                | Some shown \<Rightarrow>
                    preview_loop re_other excel_files filter_conditions logic
                      (st1\<lparr>preview_data := Some (shown @ preview_data1)\<rparr>))))"

fun combine_loop ::
  "re_lib \<Rightarrow> archive \<Rightarrow> condition list \<Rightarrow> string \<Rightarrow> named_sheets \<Rightarrow> session_state \<Rightarrow>
   exn option \<times> named_sheets \<times> session_state"
where
  "combine_loop re_other [] filter_conditions logic all_sheets st = (None, all_sheets, st)"
| "combine_loop re_other ((file_name, m) # excel_files) filter_conditions logic all_sheets st =
     (case m of
        Inl e \<Rightarrow> (Some e, all_sheets, st)
      | Inr file_content \<Rightarrow>
          (case process_excel_file re_other file_content file_name filter_conditions logic False st of
             ((sheets, preview_data1), st1) \<Rightarrow>
               combine_loop re_other excel_files filter_conditions logic (all_sheets @ sheets) st1))"

text \<open>
  One run of the script: the upload (its size in bytes and what \<open>zipfile.ZipFile\<close> makes of
  it), the widgets' values, and the session state. The run ends at the list the writer
  receives; the writer itself (lines 233-265) is outside the model.
\<close>

record upload =
  size_bytes :: nat
  zip_open :: "exn + archive"

record widgets =
  slots :: "(string \<times> string) list"
  filter_logic :: string
  preview_clicked :: bool
  combine_clicked :: bool

datatype outcome =
    No_upload
  | Too_large
  | No_excel_files
  | Failed exn
  | Page "named_sheets option"

text \<open>
  \<open>len(zip_file.getvalue()) / (1024 * 1024) > 100\<close> divides by a power of two, which is exact
  in floating point: the test is \<open>size > 100 * 1024 * 1024\<close> bytes.
\<close>

definition script_run ::
  "re_lib \<Rightarrow> upload option \<Rightarrow> widgets \<Rightarrow> session_state \<Rightarrow> outcome \<times> session_state"
where
  "script_run re_other zip_file ui st =
     (case zip_file of
        None \<Rightarrow> (No_upload, st)
      | Some up \<Rightarrow>
          (let st0 = st\<lparr>processed_sheets := 0, error_sheets := [], preview_data := None\<rparr>
           in if size_bytes up > 100 * (1024 * 1024) then (Too_large, st0)
              else (case zip_open up of
                      Inl e \<Rightarrow> (Failed e, st0)
                    | Inr z \<Rightarrow>
                        (let excel_files = filter (\<lambda>f. endswith (fst f) ''.xlsx'') z
                         in if excel_files = [] then (No_excel_files, st0)
                            else (case get_column_options excel_files st0 of
                                    (options, st1) \<Rightarrow>
                                      (let st2 = st1\<lparr>column_options := options\<rparr>;
                                           filter_conditions =
                                             filter (\<lambda>s. fst s \<noteq> ''None'' \<and> snd s \<noteq> []) (slots ui);
                                           logic = filter_logic ui
                                       in (case (if preview_clicked ui
                                                 then preview_loop re_other excel_files filter_conditions
                                                        logic (st2\<lparr>preview_data := Some []\<rparr>)
                                                 else (None, st2)) of
                                             (Some e, st3) \<Rightarrow> (Failed e, st3)
                                           | (None, st3) \<Rightarrow>
                                               if combine_clicked ui
                                               then (case combine_loop re_other excel_files
                                                            filter_conditions logic [] st3 of
                                                       (Some e, all_sheets, st4) \<Rightarrow> (Failed e, st4)
                                                     | (None, all_sheets, st4) \<Rightarrow>
                                                         (Page (Some all_sheets), st4))
                                               else (Page None, st3))))))))"

section \<open>Specification-side notions\<close>

text \<open>
  The definitions of this section follow the specification's words; the theorems compare
  them with the functions above.
\<close>

definition active :: "dataframe \<Rightarrow> condition list \<Rightarrow> condition list" where
  \<comment> \<open>the conditions whose column exists in the table\<close>
  "active df conds = filter (\<lambda>c. fst c \<in> set (columns df)) conds"

definition combine_tests ::
  "string \<Rightarrow> (condition \<Rightarrow> row \<Rightarrow> bool) \<Rightarrow> condition list \<Rightarrow> row \<Rightarrow> bool" where
  \<comment> \<open>per-condition tests of a row, combined with AND or OR\<close>
  "combine_tests logic T act r =
     (if logic = ''AND'' then list_all (\<lambda>c. T c r) act else list_ex (\<lambda>c. T c r) act)"






definition code_test :: "re_lib \<Rightarrow> condition \<Rightarrow> row \<Rightarrow> bool" where
  \<comment> \<open>the test the code applies to a row once the pattern has compiled\<close>
  "code_test re_other c r =
     (case re_compile re_other (snd c) of
        Inl e \<Rightarrow> False
      | Inr rx \<Rightarrow> rx (astype_str (case r (fst c) of None \<Rightarrow> NaN | Some x \<Rightarrow> x)))"

definition compiles :: "re_lib \<Rightarrow> dataframe \<Rightarrow> condition \<Rightarrow> bool" where
  \<comment> \<open>the condition cannot make the filter fail: its column is absent or its pattern compiles\<close>
  "compiles re_other df c =
     (fst c \<notin> set (columns df) \<or> \<not> isl (re_compile re_other (snd c)))"

fun first_failure :: "re_lib \<Rightarrow> dataframe \<Rightarrow> condition list \<Rightarrow> exn option" where
  \<comment> \<open>the exception of the first condition, in list order, that makes the filter fail\<close>
  "first_failure re_other df [] = None"
| "first_failure re_other df (c # conds) =
     (if fst c \<in> set (columns df)
      then (case re_compile re_other (snd c) of
              Inl e \<Rightarrow> Some e
            | Inr rx \<Rightarrow> first_failure re_other df conds)
      else first_failure re_other df conds)"

definition filtered :: "re_lib \<Rightarrow> dataframe \<Rightarrow> condition list \<Rightarrow> string \<Rightarrow> dataframe" where
  \<comment> \<open>the table \<open>apply_filters\<close> returns\<close>
  "filtered re_other df conds logic =
     (case filter_try re_other df conds logic of Inl e \<Rightarrow> df | Inr result \<Rightarrow> result)"

definition filter_log :: "re_lib \<Rightarrow> dataframe \<Rightarrow> condition list \<Rightarrow> string \<Rightarrow> string list" where
  \<comment> \<open>the entries \<open>apply_filters\<close> appends to the error log\<close>
  "filter_log re_other df conds logic =
     (case filter_try re_other df conds logic of
        Inl e \<Rightarrow> [''Error applying filters: '' @ str_exn e]
      | Inr result \<Rightarrow> [])"

definition display_name :: "string \<Rightarrow> string \<Rightarrow> string" where
  \<comment> \<open>sanitize(sheet_name) + "_" + sanitize(base_file_name), truncated to 31 characters\<close>
  "display_name sheet_name file_name =
     take 31 (sanitize_sheet_name sheet_name @ ''_'' @
              sanitize_sheet_name (splitext_root file_name))"

definition contributes :: "re_lib \<Rightarrow> condition list \<Rightarrow> string \<Rightarrow> dataframe \<Rightarrow> bool" where
  \<comment> \<open>the sheet is not empty and neither is its filtered result\<close>
  "contributes re_other conds logic df =
     (\<not> df_empty df \<and> \<not> df_empty (filtered re_other df conds logic))"

definition entries ::
  "re_lib \<Rightarrow> string \<Rightarrow> condition list \<Rightarrow> string \<Rightarrow> (string \<times> dataframe) list \<Rightarrow> named_sheets" where
  \<comment> \<open>the contributing sheets of a workbook in sheet order, named and filtered\<close>
  "entries re_other file_name conds logic sheets =
     map (\<lambda>s. (display_name (fst s) file_name, filtered re_other (snd s) conds logic))
       (filter (\<lambda>s. contributes re_other conds logic (snd s)) sheets)"

definition sheet_log ::
  "re_lib \<Rightarrow> string \<Rightarrow> condition list \<Rightarrow> string \<Rightarrow> string \<times> dataframe \<Rightarrow> string list" where
  \<comment> \<open>what one sheet adds to the error log\<close>
  "sheet_log re_other file_name conds logic s =
     (if df_empty (snd s) then [fst s @ '' in '' @ file_name @ '': Sheet is empty'']
      else filter_log re_other (snd s) conds logic @
           (if df_empty (filtered re_other (snd s) conds logic)
            then [fst s @ '' in '' @ file_name @ '': No rows remain after filtering'']
            else []))"

definition file_entries ::
  "re_lib \<Rightarrow> condition list \<Rightarrow> string \<Rightarrow> string \<times> member \<Rightarrow> named_sheets" where
  \<comment> \<open>the entries of one member of the archive\<close>
  "file_entries re_other conds logic f =
     (case snd f of
        Inr (Inr sheets) \<Rightarrow> entries re_other (fst f) conds logic sheets
      | _ \<Rightarrow> [])"

section \<open>Example data\<close>

text \<open>
  The closed examples below use patterns that are simple or start with a quantifier, so
  the parameter for the rest of the pattern language is never consulted; \<open>re_unused\<close>
  fills its place.
\<close>

definition re_unused :: re_lib where
  "re_unused pat = Inl (Error ''pattern outside the examples'')"

definition re_paren :: re_lib where
  \<comment> \<open>what \<open>re.compile\<close> answers on the pattern of one opening parenthesis\<close>
  "re_paren pat =
     (if pat = ''('' then Inl (Error ''missing ), unterminated subpattern at position 0'')
      else Inl (Error ''pattern outside the examples''))"

definition fresh :: session_state where
  "fresh = \<lparr>processed_sheets = 0, error_sheets = [], column_options = [], preview_data = None\<rparr>"

definition east :: row where
  "east = [''Region'' \<mapsto> Val ''East'', ''Amt'' \<mapsto> Val ''10'']"

definition west :: row where
  "west = [''Region'' \<mapsto> Val ''West'', ''Amt'' \<mapsto> Val ''5'']"

definition sales :: dataframe where
  "sales = \<lparr>columns = [''Region'', ''Amt''], rows = [east, west]\<rparr>"

definition gap :: row where
  "gap = [''Region'' \<mapsto> NaN, ''Amt'' \<mapsto> Val ''7'']"

definition gaps :: dataframe where
  "gaps = \<lparr>columns = [''Region'', ''Amt''], rows = [gap]\<rparr>"



definition blank :: dataframe where
  "blank = \<lparr>columns = [], rows = []\<rparr>"

definition two_files :: archive where
  "two_files =
     [(''File1.xlsx'', Inr (Inr [(''Data'', sales), (''Notes'', blank)])),
      (''Broken.xlsx'', Inr (Inl (BadZipFile ''File is not a zip file''))),
      (''in/File2.xlsx'', Inr (Inr [(''Data'', gaps)]))]"

definition oversized :: upload where
  "oversized = \<lparr>size_bytes = 104857601, zip_open = Inr two_files\<rparr>"

definition idle :: widgets where
  "idle = \<lparr>slots = [(''None'', [])], filter_logic = ''AND'', preview_clicked = False,
            combine_clicked = False\<rparr>"

definition used :: session_state where
  "used = \<lparr>processed_sheets = 3, error_sheets = [''Old.xlsx: No sheets found''],
            column_options = [''Amt''], preview_data = Some []\<rparr>"

definition quarter :: "(string \<times> dataframe) list" where
  "quarter = [(''Notes'', blank), (''Q1'', sales), (''Q2'', gaps)]"

definition many :: dataframe where
  "many = \<lparr>columns = [''Region'', ''Amt''], rows = [east, west, east, west, east, west]\<rparr>"

section \<open>Properties\<close>

subsection \<open>The name sanitizer\<close>

lemma length_re_sub_invalid: "length (re_sub_invalid s) = length s"
  by (induction s) auto

lemma nth_re_sub_invalid:
  "i < length s \<Longrightarrow>
   re_sub_invalid s ! i = (if s ! i \<in> set invalid_chars then CHR ''_'' else s ! i)"
proof (induction s arbitrary: i)
  case Nil
  then show ?case by simp
next
  case (Cons c cs)
  then show ?case by (cases i) auto
qed

lemma re_sub_invalid_clean: "c \<in> set (re_sub_invalid s) \<Longrightarrow> c \<notin> set invalid_chars"
  by (induction s) (auto simp: invalid_chars_def split: if_splits)

lemma re_sub_invalid_id: "set s \<inter> set invalid_chars = {} \<Longrightarrow> re_sub_invalid s = s"
  by (induction s) auto

lemma re_sub_invalid_take: "re_sub_invalid (take n s) = take n (re_sub_invalid s)"
proof (induction s arbitrary: n)
  case Nil
  then show ?case by simp
next
  case (Cons c cs)
  then show ?case by (cases n) auto
qed

text \<open>
  C4. \<open>sanitize_sheet_name\<close> is a total function on strings; its result has at most 31
  characters (exactly \<open>min 31 (length x)\<close>), none of them one of \<^verbatim>\<open>/ \ * ? : [ ]\<close>, and at
  every position it keeps it holds \<open>_\<close> where the input holds one of these characters and
  the input's character otherwise.
\<close>

theorem sanitize_sheet_name_safe:
  "length (sanitize_sheet_name x) = min 31 (length x) \<and>
   length (sanitize_sheet_name x) \<le> 31 \<and>
   (\<forall>c \<in> set (sanitize_sheet_name x). c \<notin> set invalid_chars) \<and>
   (\<forall>i < length (sanitize_sheet_name x).
      sanitize_sheet_name x ! i = (if x ! i \<in> set invalid_chars then CHR ''_'' else x ! i))"
proof -
  have len: "length (sanitize_sheet_name x) = min 31 (length x)"
    by (simp add: sanitize_sheet_name_def length_re_sub_invalid min.commute)
  have clean: "\<forall>c \<in> set (sanitize_sheet_name x). c \<notin> set invalid_chars"
    using re_sub_invalid_clean in_set_takeD
    by (fastforce simp: sanitize_sheet_name_def)
  have nth: "\<forall>i < length (sanitize_sheet_name x).
      sanitize_sheet_name x ! i = (if x ! i \<in> set invalid_chars then CHR ''_'' else x ! i)"
    by (simp add: sanitize_sheet_name_def length_re_sub_invalid nth_re_sub_invalid)
  from len clean nth show ?thesis by simp
qed

theorem sanitize_sheet_name_safe_witness:
  "sanitize_sheet_name ''Q1/2024: [draft] of the *final* report?'' =
     ''Q1_2024_ _draft_ of the _final_'' \<and>
   length (sanitize_sheet_name ''Q1/2024: [draft] of the *final* report?'') = 31"
  using sanitize_sheet_name_safe [of "''Q1/2024: [draft] of the *final* report?''"]
  by (simp add: sanitize_sheet_name_def invalid_chars_def)

text \<open>
  C5. Sanitizing twice is sanitizing once.
\<close>

theorem sanitize_sheet_name_idempotent:
  "sanitize_sheet_name (sanitize_sheet_name x) = sanitize_sheet_name x"
proof -
  have "set (re_sub_invalid x) \<inter> set invalid_chars = {}"
    using re_sub_invalid_clean by blast
  then have "re_sub_invalid (re_sub_invalid x) = re_sub_invalid x"
    by (rule re_sub_invalid_id)
  then show ?thesis
    by (simp add: sanitize_sheet_name_def re_sub_invalid_take)
qed

subsection \<open>The filter engine\<close>


lemma map2_and: "map2 (\<and>) (map M xs) (map N xs) = map (\<lambda>x. M x \<and> N x) xs"
  by (induction xs) auto

lemma map2_or: "map2 (\<or>) (map M xs) (map N xs) = map (\<lambda>x. M x \<or> N x) xs"
  by (induction xs) auto

lemma index_map: "map fst (filter snd (zip xs (map P xs))) = filter P xs"
  by (induction xs) auto

lemma index_subset: "set (map fst (filter snd (zip xs m))) \<subseteq> set xs"
  by (auto dest: set_zip_leftD)

lemma filter_loop_absent:
  "\<forall>c \<in> set conds. fst c \<notin> set (columns df) \<Longrightarrow> filter_loop re_other df conds logic msk = Inr msk"
  by (induction conds arbitrary: msk) auto

lemma filter_loop_fails:
  "(column, value) \<in> set conds \<Longrightarrow> column \<in> set (columns df) \<Longrightarrow> re_compile re_other value = Inl e \<Longrightarrow>
   \<exists>e'. filter_loop re_other df conds logic msk = Inl e'"
proof (induction conds arbitrary: msk)
  case Nil
  then show ?case by simp
next
  case (Cons c conds)
  obtain c1 p1 where c: "c = (c1, p1)" by (cases c)
  show ?case
  proof (cases "c1 \<in> set (columns df)")
    case False
    with Cons c show ?thesis by auto
  next
    case True
    show ?thesis
    proof (cases "re_compile re_other p1")
      case (Inl a)
      with True c show ?thesis by (simp add: str_contains_def)
    next
      case (Inr rx)
      with Cons.prems c have "(column, value) \<in> set conds" by auto
      from Cons.IH [OF this Cons.prems(2,3)] True c Inr show ?thesis
        by (simp add: str_contains_def)
    qed
  qed
qed

lemma filter_loop_Some:
  assumes "\<forall>c \<in> set (active df conds).
             str_contains re_other (map astype_str (getitem df (fst c))) (snd c) = Inr (map (T c) (rows df))"
  shows "filter_loop re_other df conds logic (Some (map M (rows df))) =
           Inr (Some (map (\<lambda>r. if logic = ''AND'' then M r \<and> list_all (\<lambda>c. T c r) (active df conds)
                               else M r \<or> list_ex (\<lambda>c. T c r) (active df conds)) (rows df)))"
  using assms
proof (induction conds arbitrary: M)
  case Nil
  then show ?case by (simp add: active_def)
next
  case (Cons c conds)
  obtain c1 p1 where c: "c = (c1, p1)" by (cases c)
  show ?case
  proof (cases "c1 \<in> set (columns df)")
    case False
    with Cons c show ?thesis by (simp add: active_def)
  next
    case True
    with Cons.prems c have now: "str_contains re_other (map astype_str (getitem df c1)) p1 = Inr (map (T c) (rows df))"
      by (simp add: active_def)
    from Cons.prems True c have rest: "\<forall>c \<in> set (active df conds).
             str_contains re_other (map astype_str (getitem df (fst c))) (snd c) = Inr (map (T c) (rows df))"
      by (simp add: active_def)
    show ?thesis
    proof (cases "logic = ''AND''")
      case yes: True
      show ?thesis
        using True c now yes Cons.IH [OF rest, of "\<lambda>r. M r \<and> T c r"]
        by (simp add: active_def map2_and conj_assoc)
    next
      case no: False
      show ?thesis
        using True c now no Cons.IH [OF rest, of "\<lambda>r. M r \<or> T c r"]
        by (simp add: active_def map2_or disj_assoc)
    qed
  qed
qed

lemma filter_loop_None:
  assumes "\<forall>c \<in> set (active df conds).
             str_contains re_other (map astype_str (getitem df (fst c))) (snd c) = Inr (map (T c) (rows df))"
  shows "filter_loop re_other df conds logic None =
           Inr (if active df conds = [] then None
                else Some (map (combine_tests logic T (active df conds)) (rows df)))"
  using assms
proof (induction conds)
  case Nil
  then show ?case by (simp add: active_def)
next
  case (Cons c conds)
  obtain c1 p1 where c: "c = (c1, p1)" by (cases c)
  show ?case
  proof (cases "c1 \<in> set (columns df)")
    case False
    with Cons c show ?thesis by (simp add: active_def)
  next
    case True
    with Cons.prems c have now: "str_contains re_other (map astype_str (getitem df c1)) p1 = Inr (map (T c) (rows df))"
      by (simp add: active_def)
    from Cons.prems True c have rest: "\<forall>c \<in> set (active df conds).
             str_contains re_other (map astype_str (getitem df (fst c))) (snd c) = Inr (map (T c) (rows df))"
      by (simp add: active_def)
    show ?thesis
      using True c now filter_loop_Some [OF rest, of logic "T c"]
      by (simp add: active_def combine_tests_def)
  qed
qed

lemma filter_try_tests:
  assumes "\<forall>c \<in> set (active df conds).
             str_contains re_other (map astype_str (getitem df (fst c))) (snd c) = Inr (map (T c) (rows df))"
  shows "filter_try re_other df conds logic =
           Inr (if active df conds = [] then df
                else df\<lparr>rows := filter (combine_tests logic T (active df conds)) (rows df)\<rparr>)"
  using filter_loop_None [OF assms, of logic]
  by (simp add: filter_try_def boolean_index_def index_map)





lemma str_contains_compiled:
  assumes "re_compile re_other (snd c) = Inr rx"
  shows "str_contains re_other (map astype_str (getitem df (fst c))) (snd c) = Inr (map (code_test re_other c) (rows df))"
  using assms by (simp add: str_contains_def code_test_def getitem_def)


lemma filter_absent:
  assumes "\<forall>c \<in> set conds. fst c \<notin> set (columns df)"
  shows "apply_filters re_other df conds logic st = (df, st)"
  using filter_loop_absent [OF assms]
  by (simp add: apply_filters_def filter_try_def)

lemma filter_loop_first_failure:
  "first_failure re_other df conds = Some e \<Longrightarrow> filter_loop re_other df conds logic msk = Inl e"
proof (induction conds arbitrary: msk)
  case Nil
  then show ?case by simp
next
  case (Cons c conds)
  obtain c1 p1 where c: "c = (c1, p1)" by (cases c)
  show ?case
  proof (cases "c1 \<in> set (columns df)")
    case False
    with Cons c show ?thesis by simp
  next
    case True
    show ?thesis
    proof (cases "re_compile re_other p1")
      case (Inl a)
      with True c Cons.prems show ?thesis by (simp add: str_contains_def)
    next
      case (Inr rx)
      with True c Cons.prems have "first_failure re_other df conds = Some e" by simp
      from Cons.IH [OF this] True c Inr show ?thesis
        by (simp add: str_contains_def)
    qed
  qed
qed

lemma first_failure_exists:
  "c \<in> set conds \<Longrightarrow> \<not> compiles re_other df c \<Longrightarrow> \<exists>e. first_failure re_other df conds = Some e"
proof (induction conds)
  case Nil
  then show ?case by simp
next
  case (Cons d conds)
  show ?case
  proof (cases "c = d")
    case True
    with Cons.prems show ?thesis
      by (cases "re_compile re_other (snd d)") (auto simp: compiles_def)
  next
    case False
    with Cons show ?thesis
      by (cases "re_compile re_other (snd d)") auto
  qed
qed

lemma first_failure_source:
  "first_failure re_other df conds = Some e \<Longrightarrow>
   \<exists>c \<in> set conds. fst c \<in> set (columns df) \<and> re_compile re_other (snd c) = Inl e"
proof (induction conds)
  case Nil
  then show ?case by simp
next
  case (Cons d conds)
  then show ?case
    by (cases "re_compile re_other (snd d)") (auto split: if_splits)
qed

lemma apply_filters_first_failure:
  assumes "first_failure re_other df conds = Some e"
  shows "apply_filters re_other df conds logic st =
           (df, st\<lparr>error_sheets := error_sheets st @ [''Error applying filters: '' @ str_exn e]\<rparr>)"
  using filter_loop_first_failure [OF assms, of logic None]
  by (simp add: apply_filters_def filter_try_def log_error_def)

lemma str_exn_cases: "e = Error (str_exn e) \<or> e = BadZipFile (str_exn e)"
  by (cases e) auto

lemma fst_apply_filters:
  "fst (apply_filters re_other df conds logic st) = filtered re_other df conds logic"
  by (simp add: apply_filters_def filtered_def split: sum.splits)

lemma snd_apply_filters:
  "snd (apply_filters re_other df conds logic st) =
     st\<lparr>error_sheets := error_sheets st @ filter_log re_other df conds logic\<rparr>"
  by (simp add: apply_filters_def filter_log_def log_error_def split: sum.splits)

lemma filtered_subset:
  "set (rows (fst (apply_filters re_other df conds logic st))) \<subseteq> set (rows df)"
  using index_subset [of "rows df"]
  by (auto simp: fst_apply_filters filtered_def filter_try_def boolean_index_def
      split: sum.splits option.splits)

lemma filter_try_compiled:
  assumes "\<forall>c \<in> set conds. compiles re_other df c"
  shows "filter_try re_other df conds logic =
           Inr (if active df conds = [] then df
                else df\<lparr>rows := filter (combine_tests logic (code_test re_other) (active df conds))
                                  (rows df)\<rparr>)"
proof -
  have "\<forall>c \<in> set (active df conds).
          str_contains re_other (map astype_str (getitem df (fst c))) (snd c) =
            Inr (map (code_test re_other c) (rows df))"
  proof
    fix c assume "c \<in> set (active df conds)"
    with assms have "\<not> isl (re_compile re_other (snd c))"
      by (auto simp: active_def compiles_def)
    then obtain rx where "re_compile re_other (snd c) = Inr rx"
      by (cases "re_compile re_other (snd c)") auto
    then show "str_contains re_other (map astype_str (getitem df (fst c))) (snd c) =
            Inr (map (code_test re_other c) (rows df))"
      by (rule str_contains_compiled)
  qed
  from filter_try_tests [OF this] show ?thesis .
qed

lemma filtered_compiled:
  assumes "\<forall>c \<in> set conds. compiles re_other df c"
  shows "fst (apply_filters re_other df conds logic st) =
           (if active df conds = [] then df
            else df\<lparr>rows := filter (combine_tests logic (code_test re_other) (active df conds)) (rows df)\<rparr>)"
  using filter_try_compiled [OF assms, of logic]
  by (simp add: fst_apply_filters filtered_def)

lemma filtered_failed:
  assumes "c \<in> set conds" "\<not> compiles re_other df c"
  shows "fst (apply_filters re_other df conds logic st) = df"
proof -
  from assms(2) obtain e where "fst c \<in> set (columns df)" "re_compile re_other (snd c) = Inl e"
    by (cases "re_compile re_other (snd c)") (auto simp: compiles_def)
  with assms(1) filter_loop_fails [of "fst c" "snd c" conds df re_other e logic None]
  show ?thesis
    by (auto simp: fst_apply_filters filtered_def filter_try_def)
qed

lemma and_narrower:
  assumes "compiles re_other df c1" "compiles re_other df c2"
  shows "set (rows (fst (apply_filters re_other df [c1, c2] ''AND'' st))) \<subseteq>
           set (rows (fst (apply_filters re_other df [c1] logic st)))"
    and "set (rows (fst (apply_filters re_other df [c1, c2] ''AND'' st))) \<subseteq>
           set (rows (fst (apply_filters re_other df [c2] logic st)))"
  using assms
  by (auto simp: filtered_compiled active_def combine_tests_def)

lemma or_broader1:
  assumes "fst c1 \<in> set (columns df) \<or> fst c2 \<notin> set (columns df)"
  shows "set (rows (fst (apply_filters re_other df [c1] logic st))) \<subseteq>
           set (rows (fst (apply_filters re_other df [c1, c2] ''OR'' st)))"
proof (cases "compiles re_other df c1 \<and> compiles re_other df c2")
  case True
  with assms show ?thesis
    by (auto simp: filtered_compiled active_def combine_tests_def)
next
  case False
  then have "fst (apply_filters re_other df [c1, c2] ''OR'' st) = df"
    using filtered_failed [of c1 "[c1, c2]"] filtered_failed [of c2 "[c1, c2]"] by auto
  then show ?thesis using filtered_subset by simp
qed

lemma or_broader2:
  assumes "fst c2 \<in> set (columns df) \<or> fst c1 \<notin> set (columns df)"
  shows "set (rows (fst (apply_filters re_other df [c2] logic st))) \<subseteq>
           set (rows (fst (apply_filters re_other df [c1, c2] ''OR'' st)))"
proof (cases "compiles re_other df c1 \<and> compiles re_other df c2")
  case True
  with assms show ?thesis
    by (auto simp: filtered_compiled active_def combine_tests_def)
next
  case False
  then have "fst (apply_filters re_other df [c1, c2] ''OR'' st) = df"
    using filtered_failed [of c1 "[c1, c2]"] filtered_failed [of c2 "[c1, c2]"] by auto
  then show ?thesis using filtered_subset by simp
qed




text \<open>
  Rows with a missing value in a filtered column are outside C1 as amended. With pandas
  before 3.0 \<open>astype(str)\<close> has turned the missing value into the text \<open>nan\<close> before
  \<open>na=False\<close> could apply, so under the pattern \<open>na\<close> such a row is kept.
\<close>

lemma missing_value_as_text:
  "rows (fst (apply_filters re_unused gaps [(''Region'', ''na'')] ''AND'' fresh)) = [gap]"
proof -
  have c: "re_compile re_unused ''na'' = Inr (search ''na'')"
    by (simp add: re_compile_def simple_pattern_def metachars_def)
  have s: "search ''na'' ''nan''"
    by (simp add: atom_def lower_def upper_letters_def lower_letters_def)
  show ?thesis
    using c s
    by (simp add: apply_filters_def filter_try_def str_contains_def gaps_def getitem_def
        boolean_index_def gap_def)
qed

text \<open>
  C2. When no condition names a column of the table (in particular when there is no
  condition), \<open>apply_filters\<close> returns the table as it is and logs nothing.
\<close>

theorem apply_filters_no_column:
  assumes "\<forall>c \<in> set conds. fst c \<notin> set (columns df)"
  shows "apply_filters re_other df conds logic st = (df, st)"
  using assms by (rule filter_absent)

theorem apply_filters_no_column_witness:
  "apply_filters re_unused sales [] ''OR'' fresh = (sales, fresh) \<and>
   apply_filters re_unused sales [(''Country'', ''east''), (''Year'', ''*'')] ''AND'' fresh =
     (sales, fresh)"
  using apply_filters_no_column [of "[]" sales re_unused "''OR''" fresh]
    apply_filters_no_column [of "[(''Country'', ''east''), (''Year'', ''*'')]" sales re_unused
      "''AND''" fresh]
  by (simp add: sales_def)

text \<open>
  C3 (amended). For two conditions \<open>c1\<close>, \<open>c2\<close>: when neither can make the filter fail
  (its column is absent or its pattern compiles), the rows kept under AND are among the
  rows either condition keeps alone; and the rows a condition keeps alone are among the
  rows kept under OR when that condition's column exists in the table or the other's does
  not.
\<close>

theorem and_or_monotone:
  "(compiles re_other df c1 \<and> compiles re_other df c2 \<longrightarrow>
      set (rows (fst (apply_filters re_other df [c1, c2] ''AND'' st))) \<subseteq>
        set (rows (fst (apply_filters re_other df [c1] logic st))) \<and>
      set (rows (fst (apply_filters re_other df [c1, c2] ''AND'' st))) \<subseteq>
        set (rows (fst (apply_filters re_other df [c2] logic st)))) \<and>
   (fst c1 \<in> set (columns df) \<or> fst c2 \<notin> set (columns df) \<longrightarrow>
      set (rows (fst (apply_filters re_other df [c1] logic st))) \<subseteq>
        set (rows (fst (apply_filters re_other df [c1, c2] ''OR'' st)))) \<and>
   (fst c2 \<in> set (columns df) \<or> fst c1 \<notin> set (columns df) \<longrightarrow>
      set (rows (fst (apply_filters re_other df [c2] logic st))) \<subseteq>
        set (rows (fst (apply_filters re_other df [c1, c2] ''OR'' st))))"
  using and_narrower [of re_other df c1 c2 st logic] or_broader1 [of c1 df c2 re_other logic st]
    or_broader2 [of c2 df c1 re_other logic st]
  by blast

theorem and_or_monotone_witness:
  "set (rows (fst (apply_filters re_unused sales [(''Region'', ''st''), (''Amt'', ''1'')] ''AND'' fresh)))
     \<subseteq> set (rows (fst (apply_filters re_unused sales [(''Region'', ''st'')] ''AND'' fresh))) \<and>
   set (rows (fst (apply_filters re_unused sales [(''Amt'', ''1'')] ''AND'' fresh)))
     \<subseteq> set (rows (fst (apply_filters re_unused sales [(''Region'', ''st''), (''Amt'', ''1'')] ''OR'' fresh))) \<and>
   rows (fst (apply_filters re_unused sales [(''Region'', ''st''), (''Amt'', ''1'')] ''AND'' fresh)) = [east] \<and>
   rows (fst (apply_filters re_unused sales [(''Region'', ''st''), (''Amt'', ''1'')] ''OR'' fresh)) = [east, west]"
proof -
  have c: "re_compile re_unused ''st'' = Inr (search ''st'')"
          "re_compile re_unused ''1'' = Inr (search ''1'')"
    by (simp_all add: re_compile_def simple_pattern_def metachars_def)
  have ok: "compiles re_unused sales (''Region'', ''st'')" "compiles re_unused sales (''Amt'', ''1'')"
    by (simp_all add: compiles_def c)
  have col: "fst (''Amt'', ''1'') \<in> set (columns sales)"
    by (simp add: sales_def)
  have s: "search ''st'' ''East''" "search ''st'' ''West''" "search ''1'' ''10''" "\<not> search ''1'' ''5''"
    by (simp_all add: atom_def lower_def upper_letters_def lower_letters_def)
  have a: "rows (fst (apply_filters re_unused sales [(''Region'', ''st''), (''Amt'', ''1'')] ''AND'' fresh)) = [east]"
    using c s
    by (simp add: apply_filters_def filter_try_def str_contains_def sales_def getitem_def
        boolean_index_def east_def west_def)
  have b: "rows (fst (apply_filters re_unused sales [(''Region'', ''st''), (''Amt'', ''1'')] ''OR'' fresh)) = [east, west]"
    using c s
    by (simp add: apply_filters_def filter_try_def str_contains_def sales_def getitem_def
        boolean_index_def east_def west_def)
  from and_or_monotone [of re_unused sales "(''Region'', ''st'')" "(''Amt'', ''1'')" fresh "''AND''"]
    ok col a b
  show ?thesis by simp
qed

text \<open>
  C3 as stated fails twice. A pattern that does not compile makes the two-condition filter
  fall back to the whole table, which is broader than the first condition alone. And a
  condition on an absent column alone keeps the whole table, while under OR with a second
  condition only the second one filters.
\<close>

theorem and_or_monotone_counterexample:
  "\<not> set (rows (fst (apply_filters re_unused sales [(''Region'', ''east''), (''Region'', ''*'')] ''AND'' fresh)))
       \<subseteq> set (rows (fst (apply_filters re_unused sales [(''Region'', ''east'')] ''AND'' fresh))) \<and>
   \<not> set (rows (fst (apply_filters re_unused sales [(''Country'', ''x'')] ''OR'' fresh)))
       \<subseteq> set (rows (fst (apply_filters re_unused sales [(''Country'', ''x''), (''Region'', ''east'')] ''OR'' fresh)))"
proof -
  have c: "re_compile re_unused ''east'' = Inr (search ''east'')"
          "re_compile re_unused ''*'' = Inl (Error ''nothing to repeat at position 0'')"
    by (simp_all add: re_compile_def simple_pattern_def metachars_def)
  have s: "search ''east'' ''East''" "\<not> search ''east'' ''West''"
    by (simp_all add: atom_def lower_def upper_letters_def lower_letters_def)
  have ne: "west \<noteq> east"
    by (auto simp: west_def east_def dest: fun_cong [of _ _ "''Amt''"])
  have 1: "rows (fst (apply_filters re_unused sales [(''Region'', ''east''), (''Region'', ''*'')] ''AND'' fresh)) = [east, west]"
    using c s
    by (simp add: apply_filters_def filter_try_def str_contains_def sales_def getitem_def
        boolean_index_def east_def west_def)
  have 2: "rows (fst (apply_filters re_unused sales [(''Region'', ''east'')] ''AND'' fresh)) = [east]"
    using c s
    by (simp add: apply_filters_def filter_try_def str_contains_def sales_def getitem_def
        boolean_index_def east_def west_def)
  have 3: "rows (fst (apply_filters re_unused sales [(''Country'', ''x'')] ''OR'' fresh)) = [east, west]"
    by (simp add: apply_filters_def filter_try_def sales_def)
  have 4: "rows (fst (apply_filters re_unused sales [(''Country'', ''x''), (''Region'', ''east'')] ''OR'' fresh)) = [east]"
    using c s
    by (simp add: apply_filters_def filter_try_def str_contains_def sales_def getitem_def
        boolean_index_def east_def west_def)
  from 1 2 3 4 ne show ?thesis by simp
qed

text \<open>
  C8. \<open>apply_filters\<close> is a total function: it always returns a table and a session state.
  When some condition on an existing column has a pattern that does not compile, the
  evaluation fails at the first such condition of the list; the failure is caught, one
  entry made of \<open>Error applying filters:\<close> and the text of that very exception is appended
  to the error log, and the input table comes back unchanged. When there is no such
  condition nothing is logged: the session state comes back as it was.
\<close>

theorem apply_filters_never_raises:
  "(c \<in> set filter_conditions \<and> \<not> compiles re_other df c \<longrightarrow>
      (\<exists>c' e' m. c' \<in> set filter_conditions \<and> fst c' \<in> set (columns df) \<and>
         re_compile re_other (snd c') = Inl e' \<and>
         first_failure re_other df filter_conditions = Some e' \<and>
         (e' = Error m \<or> e' = BadZipFile m) \<and>
         apply_filters re_other df filter_conditions logic st =
           (df, st\<lparr>error_sheets := error_sheets st @ [''Error applying filters: '' @ m]\<rparr>))) \<and>
   (list_all (compiles re_other df) filter_conditions \<longrightarrow>
      snd (apply_filters re_other df filter_conditions logic st) = st)"
proof (intro conjI impI)
  assume "c \<in> set filter_conditions \<and> \<not> compiles re_other df c"
  then obtain e' where ff: "first_failure re_other df filter_conditions = Some e'"
    using first_failure_exists by blast
  from first_failure_source [OF ff] obtain c' where
    c': "c' \<in> set filter_conditions" "fst c' \<in> set (columns df)"
        "re_compile re_other (snd c') = Inl e'"
    by blast
  from apply_filters_first_failure [OF ff]
  have "apply_filters re_other df filter_conditions logic st =
          (df, st\<lparr>error_sheets := error_sheets st @ [''Error applying filters: '' @ str_exn e']\<rparr>)" .
  with c' ff str_exn_cases [of e']
  show "\<exists>c' e' m. c' \<in> set filter_conditions \<and> fst c' \<in> set (columns df) \<and>
         re_compile re_other (snd c') = Inl e' \<and>
         first_failure re_other df filter_conditions = Some e' \<and>
         (e' = Error m \<or> e' = BadZipFile m) \<and>
         apply_filters re_other df filter_conditions logic st =
           (df, st\<lparr>error_sheets := error_sheets st @ [''Error applying filters: '' @ m]\<rparr>)"
    by blast
next
  assume "list_all (compiles re_other df) filter_conditions"
  then have "\<forall>c \<in> set filter_conditions. compiles re_other df c"
    by (simp add: list_all_iff)
  from filter_try_compiled [OF this, of logic]
  show "snd (apply_filters re_other df filter_conditions logic st) = st"
    by (simp add: apply_filters_def)
qed

text \<open>
  Two failing filters: a pattern that starts with a quantifier, after a condition that
  compiles, and the pattern of one opening parenthesis; each logs its own error text.
\<close>

theorem apply_filters_never_raises_witness:
  "apply_filters re_unused sales [(''Region'', ''east''), (''Amt'', ''+1'')] ''AND'' fresh =
     (sales, fresh\<lparr>error_sheets := [''Error applying filters: nothing to repeat at position 0'']\<rparr>) \<and>
   apply_filters re_paren sales [(''Region'', ''('')] ''AND'' fresh =
     (sales, fresh\<lparr>error_sheets :=
        [''Error applying filters: missing ), unterminated subpattern at position 0'']\<rparr>) \<and>
   snd (apply_filters re_unused sales [(''Region'', ''east''), (''Amt'', ''1'')] ''AND'' fresh) = fresh"
proof -
  have c: "re_compile re_unused ''+1'' = Inl (Error ''nothing to repeat at position 0'')"
          "re_compile re_unused ''east'' = Inr (search ''east'')"
          "re_compile re_unused ''1'' = Inr (search ''1'')"
          "re_compile re_paren ''('' =
             Inl (Error ''missing ), unterminated subpattern at position 0'')"
    by (simp_all add: re_compile_def simple_pattern_def metachars_def re_paren_def)
  have cols: "columns sales = [''Region'', ''Amt'']"
    by (simp add: sales_def)
  have bad: "(''Amt'', ''+1'') \<in> set [(''Region'', ''east''), (''Amt'', ''+1'')] \<and>
             \<not> compiles re_unused sales (''Amt'', ''+1'')"
            "(''Region'', ''('') \<in> set [(''Region'', ''('')] \<and>
             \<not> compiles re_paren sales (''Region'', ''('')"
    by (simp_all add: compiles_def c cols)
  have good: "list_all (compiles re_unused sales) [(''Region'', ''east''), (''Amt'', ''1'')]"
    by (simp add: compiles_def c)
  have ff: "first_failure re_unused sales [(''Region'', ''east''), (''Amt'', ''+1'')] =
              Some (Error ''nothing to repeat at position 0'')"
           "first_failure re_paren sales [(''Region'', ''('')] =
              Some (Error ''missing ), unterminated subpattern at position 0'')"
    by (simp_all add: c cols)
  from apply_filters_never_raises
    [of "(''Amt'', ''+1'')" "[(''Region'', ''east''), (''Amt'', ''+1'')]" re_unused sales "''AND''" fresh]
    bad(1) ff(1)
  have 1: "apply_filters re_unused sales [(''Region'', ''east''), (''Amt'', ''+1'')] ''AND'' fresh =
     (sales, fresh\<lparr>error_sheets := [''Error applying filters: nothing to repeat at position 0'']\<rparr>)"
    by (auto simp: fresh_def)
  from apply_filters_never_raises
    [of "(''Region'', ''('')" "[(''Region'', ''('')]" re_paren sales "''AND''" fresh]
    bad(2) ff(2)
  have 2: "apply_filters re_paren sales [(''Region'', ''('')] ''AND'' fresh =
     (sales, fresh\<lparr>error_sheets :=
        [''Error applying filters: missing ), unterminated subpattern at position 0'']\<rparr>)"
    by (auto simp: fresh_def)
  from apply_filters_never_raises
    [of "(''Amt'', ''1'')" "[(''Region'', ''east''), (''Amt'', ''1'')]" re_unused sales "''AND''" fresh]
    good
  have 3: "snd (apply_filters re_unused sales [(''Region'', ''east''), (''Amt'', ''1'')] ''AND'' fresh) = fresh"
    by simp
  from 1 2 3 show ?thesis by simp
qed

subsection \<open>Workbooks, the combine loop and the size guard\<close>

lemma apply_filters_eq:
  "apply_filters re_other df conds logic st =
     (filtered re_other df conds logic,
      st\<lparr>error_sheets := error_sheets st @ filter_log re_other df conds logic\<rparr>)"
  by (simp add: apply_filters_def filtered_def filter_log_def log_error_def split: sum.splits)

lemma process_sheets_closed:
  "process_sheets re_other file_name conds logic preview sheets processed preview_list st =
     ((processed @ entries re_other file_name conds logic sheets,
       preview_list @
         (if preview
          then map (\<lambda>e. (fst e, df_head 5 (snd e))) (entries re_other file_name conds logic sheets)
          else [])),
      st\<lparr>processed_sheets :=
            processed_sheets st + int (length (entries re_other file_name conds logic sheets)),
          error_sheets :=
            error_sheets st @ concat (map (sheet_log re_other file_name conds logic) sheets)\<rparr>)"
proof (induction sheets arbitrary: processed preview_list st)
  case Nil
  then show ?case by (simp add: entries_def)
next
  case (Cons s sheets)
  obtain sheet_name df where s: "s = (sheet_name, df)" by (cases s)
  show ?case
  proof (cases "df_empty df")
    case True
    then show ?thesis
      by (simp add: s Cons.IH entries_def contributes_def sheet_log_def log_error_def Let_def)
  next
    case False
    show ?thesis
    proof (cases "df_empty (filtered re_other df conds logic)")
      case True
      with False show ?thesis
        by (simp add: s Cons.IH apply_filters_eq entries_def contributes_def sheet_log_def
            log_error_def Let_def)
    next
      case nonempty: False
      with False show ?thesis
        by (simp add: s Cons.IH apply_filters_eq entries_def contributes_def sheet_log_def
            display_name_def Let_def)
    qed
  qed
qed

lemma process_excel_file_sheets:
  "process_excel_file re_other (Inr sheets) file_name conds logic preview st =
     ((entries re_other file_name conds logic sheets,
       if preview
       then map (\<lambda>e. (fst e, df_head 5 (snd e))) (entries re_other file_name conds logic sheets)
       else []),
      st\<lparr>processed_sheets :=
            processed_sheets st + int (length (entries re_other file_name conds logic sheets)),
          error_sheets :=
            error_sheets st @
              (if sheets = [] then [file_name @ '': No sheets found'']
               else concat (map (sheet_log re_other file_name conds logic) sheets))\<rparr>)"
  by (simp add: process_excel_file_def process_sheets_closed log_error_def entries_def)

lemma process_excel_file_raises:
  "process_excel_file re_other (Inl e) file_name conds logic preview st =
     (([], []), st\<lparr>error_sheets := error_sheets st @
                     [''Error processing '' @ file_name @ '': '' @ str_exn e]\<rparr>)"
  by (simp add: process_excel_file_def log_error_def)


lemma combine_loop_closed:
  assumes "list_all (\<lambda>f. \<not> isl (snd f)) excel_files"
  shows "fst (combine_loop re_other excel_files conds logic all_sheets st) = None \<and>
         fst (snd (combine_loop re_other excel_files conds logic all_sheets st)) =
           all_sheets @ concat (map (file_entries re_other conds logic) excel_files)"
  using assms
proof (induction excel_files arbitrary: all_sheets st)
  case Nil
  then show ?case by simp
next
  case (Cons f excel_files)
  obtain file_name m where f: "f = (file_name, m)" by (cases f)
  with Cons.prems obtain content where m: "m = Inr content" by (cases m) auto
  from Cons.prems have rest: "list_all (\<lambda>f. \<not> isl (snd f)) excel_files" by simp
  show ?case
  proof (cases content)
    case (Inl e)
    with f m Cons.IH [OF rest] show ?thesis
      by (simp add: process_excel_file_raises file_entries_def)
  next
    case (Inr sheets)
    with f m Cons.IH [OF rest] show ?thesis
      by (simp add: process_excel_file_sheets file_entries_def)
  qed
qed

text \<open>
  C6. When every member of the archive can be opened, the combine loop ends normally and
  its list is the concatenation, in the order of the file names, of each file's entries;
  a file's entries are its contributing sheets in workbook order, each under the name
  \<open>sanitize(sheet_name) + "_" + sanitize(base_file_name)\<close> cut to 31 characters (the base
  name being \<open>os.path.splitext(file_name)[0]\<close>) and with its filtered table. A file that
  \<open>read_excel\<close> rejects has no entries.
\<close>

theorem combine_order:
  assumes "list_all (\<lambda>f. \<not> isl (snd f)) excel_files"
  shows "fst (combine_loop re_other excel_files conds logic [] st) = None \<and>
         fst (snd (combine_loop re_other excel_files conds logic [] st)) =
           concat (map (file_entries re_other conds logic) excel_files) \<and>
         file_entries re_other conds logic (file_name, Inr (Inr sheets)) =
           map (\<lambda>s. (take 31 (sanitize_sheet_name (fst s) @ ''_'' @
                               sanitize_sheet_name (splitext_root file_name)),
                      fst (apply_filters re_other (snd s) conds logic st)))
             (filter (\<lambda>s. contributes re_other conds logic (snd s)) sheets) \<and>
         file_entries re_other conds logic (file_name, Inr (Inl e)) = []"
  using combine_loop_closed [OF assms, of re_other conds logic "[]" st]
  by (simp add: file_entries_def entries_def display_name_def fst_apply_filters)


lemma splitext_examples:
  "splitext_root ''File1.xlsx'' = ''File1''"
  "splitext_root ''in/File2.xlsx'' = ''in/File2''"
  "splitext_root ''Sales.xlsx'' = ''Sales''"
  by (simp_all add: splitext_root_def rfind_def)

lemma display_name_examples:
  "display_name ''Data'' ''File1.xlsx'' = ''Data_File1''"
  "display_name ''Data'' ''in/File2.xlsx'' = ''Data_in_File2''"
  "display_name ''Q1'' ''Sales.xlsx'' = ''Q1_Sales''"
  by (simp_all add: display_name_def splitext_examples sanitize_sheet_name_def invalid_chars_def)

lemma df_empty_examples: "df_empty blank" "\<not> df_empty sales" "\<not> df_empty gaps"
  by (simp_all add: df_empty_def blank_def sales_def gaps_def)

theorem combine_order_witness:
  "fst (combine_loop re_unused two_files [] ''AND'' [] fresh) = None \<and>
   fst (snd (combine_loop re_unused two_files [] ''AND'' [] fresh)) =
     [(''Data_File1'', sales), (''Data_in_File2'', gaps)]"
proof -
  have ok: "list_all (\<lambda>f. \<not> isl (snd f)) two_files"
    by (simp add: two_files_def)
  have f: "filtered re_unused sales [] ''AND'' = sales" "filtered re_unused gaps [] ''AND'' = gaps"
    by (simp_all add: filtered_def filter_try_def)
  have "concat (map (file_entries re_unused [] ''AND'') two_files) =
          [(''Data_File1'', sales), (''Data_in_File2'', gaps)]"
    by (simp add: two_files_def file_entries_def entries_def contributes_def f
        df_empty_examples display_name_examples)
  with combine_order [OF ok, of re_unused "[]" "''AND''" fresh] show ?thesis
    by simp
qed

text \<open>
  C7. Of a workbook that \<open>read_excel\<close> parsed, the processed list holds exactly the sheets
  that are not empty and whose filtered result is not empty, in order; no table in it is
  empty; the count of processed sheets grows by the length of that list, so a skipped
  sheet leaves it alone; and the error log grows by each sheet's entries in order: for an
  empty sheet the entry \<open>... Sheet is empty\<close>, for a sheet whose filtered result is empty
  the entry \<open>... No rows remain after filtering\<close> (after the filter's own entry, if it
  failed), and nothing else.
\<close>

theorem empty_sheets_skipped:
  "fst (fst (process_excel_file re_other (Inr sheets) file_name conds logic preview st)) =
     map (\<lambda>s. (display_name (fst s) file_name, fst (apply_filters re_other (snd s) conds logic st)))
       (filter (\<lambda>s. \<not> df_empty (snd s) \<and>
                    \<not> df_empty (fst (apply_filters re_other (snd s) conds logic st))) sheets) \<and>
   list_all (\<lambda>e. \<not> df_empty (snd e))
     (fst (fst (process_excel_file re_other (Inr sheets) file_name conds logic preview st))) \<and>
   processed_sheets (snd (process_excel_file re_other (Inr sheets) file_name conds logic preview st)) =
     processed_sheets st +
     int (length (fst (fst (process_excel_file re_other (Inr sheets) file_name conds logic preview st)))) \<and>
   (sheets \<noteq> [] \<longrightarrow>
      error_sheets (snd (process_excel_file re_other (Inr sheets) file_name conds logic preview st)) =
        error_sheets st @ concat (map (sheet_log re_other file_name conds logic) sheets))"
  by (simp add: process_excel_file_sheets entries_def contributes_def fst_apply_filters
      list_all_iff)

theorem empty_sheets_skipped_witness:
  "fst (fst (process_excel_file re_unused (Inr quarter) ''Sales.xlsx'' [(''Region'', ''east'')]
               ''AND'' False fresh)) =
     [(''Q1_Sales'', \<lparr>columns = [''Region'', ''Amt''], rows = [east]\<rparr>)] \<and>
   processed_sheets (snd (process_excel_file re_unused (Inr quarter) ''Sales.xlsx''
                            [(''Region'', ''east'')] ''AND'' False fresh)) = 1 \<and>
   error_sheets (snd (process_excel_file re_unused (Inr quarter) ''Sales.xlsx''
                        [(''Region'', ''east'')] ''AND'' False fresh)) =
     [''Notes in Sales.xlsx: Sheet is empty'',
      ''Q2 in Sales.xlsx: No rows remain after filtering'']"
proof -
  have c: "re_compile re_unused ''east'' = Inr (search ''east'')"
    by (simp add: re_compile_def simple_pattern_def metachars_def)
  have s: "search ''east'' ''East''" "\<not> search ''east'' ''West''" "\<not> search ''east'' ''nan''"
    by (simp_all add: atom_def lower_def upper_letters_def lower_letters_def)
  have a: "apply_filters re_unused sales [(''Region'', ''east'')] ''AND'' fresh =
             (\<lparr>columns = [''Region'', ''Amt''], rows = [east]\<rparr>, fresh)"
          "apply_filters re_unused gaps [(''Region'', ''east'')] ''AND'' fresh =
             (\<lparr>columns = [''Region'', ''Amt''], rows = []\<rparr>, fresh)"
    using c s
    by (simp_all add: apply_filters_def filter_try_def str_contains_def sales_def gaps_def
        getitem_def boolean_index_def east_def west_def gap_def)
  have l: "filter_log re_unused sales [(''Region'', ''east'')] ''AND'' = []"
          "filter_log re_unused gaps [(''Region'', ''east'')] ''AND'' = []"
          "filtered re_unused sales [(''Region'', ''east'')] ''AND'' =
             \<lparr>columns = [''Region'', ''Amt''], rows = [east]\<rparr>"
          "filtered re_unused gaps [(''Region'', ''east'')] ''AND'' =
             \<lparr>columns = [''Region'', ''Amt''], rows = []\<rparr>"
    using a snd_apply_filters [of re_unused sales "[(''Region'', ''east'')]" "''AND''" fresh]
      snd_apply_filters [of re_unused gaps "[(''Region'', ''east'')]" "''AND''" fresh]
      fst_apply_filters [of re_unused sales "[(''Region'', ''east'')]" "''AND''" fresh]
      fst_apply_filters [of re_unused gaps "[(''Region'', ''east'')]" "''AND''" fresh]
    by (simp_all add: fresh_def)
  have lg: "concat (map (sheet_log re_unused ''Sales.xlsx'' [(''Region'', ''east'')] ''AND'') quarter) =
          [''Notes in Sales.xlsx: Sheet is empty'',
           ''Q2 in Sales.xlsx: No rows remain after filtering'']"
    by (simp add: quarter_def sheet_log_def df_empty_examples l) (simp add: df_empty_def)
  have q: "quarter \<noteq> []" by (simp add: quarter_def)
  from empty_sheets_skipped [of re_unused quarter "''Sales.xlsx''" "[(''Region'', ''east'')]"
      "''AND''" False fresh]
  show ?thesis
    using q lg by (simp add: a quarter_def df_empty_examples display_name_examples)
      (simp add: df_empty_def fresh_def)
qed


text \<open>
  C10. With \<open>preview=True\<close> \<open>process_excel_file\<close> returns the same processed list and leaves
  the same session state (error log and count of processed sheets) as with
  \<open>preview=False\<close>; its preview list names the processed tables in the same order, each cut
  to its first 5 rows (all of them when it has fewer), and without \<open>preview\<close> the preview
  list is empty.
\<close>

theorem preview_agrees:
  "fst (fst (process_excel_file re_other file_content file_name conds logic True st)) =
     fst (fst (process_excel_file re_other file_content file_name conds logic False st)) \<and>
   snd (process_excel_file re_other file_content file_name conds logic True st) =
     snd (process_excel_file re_other file_content file_name conds logic False st) \<and>
   snd (fst (process_excel_file re_other file_content file_name conds logic True st)) =
     map (\<lambda>e. (fst e, (snd e)\<lparr>rows := take 5 (rows (snd e))\<rparr>))
       (fst (fst (process_excel_file re_other file_content file_name conds logic True st))) \<and>
   snd (fst (process_excel_file re_other file_content file_name conds logic False st)) = []"
proof (cases file_content)
  case (Inl e)
  then show ?thesis by (simp add: process_excel_file_raises)
next
  case (Inr sheets)
  then show ?thesis by (simp add: process_excel_file_sheets df_head_def)
qed

theorem preview_agrees_witness:
  "process_excel_file re_unused (Inr [(''Big'', many)]) ''Sales.xlsx'' [] ''OR'' True fresh =
     (([(''Big_Sales'', many)],
       [(''Big_Sales'', \<lparr>columns = [''Region'', ''Amt''], rows = [east, west, east, west, east]\<rparr>)]),
      fresh\<lparr>processed_sheets := 1\<rparr>) \<and>
   process_excel_file re_unused (Inr [(''Big'', many)]) ''Sales.xlsx'' [] ''OR'' False fresh =
     (([(''Big_Sales'', many)], []), fresh\<lparr>processed_sheets := 1\<rparr>)"
proof -
  have f: "filtered re_unused many [] ''OR'' = many" "filter_log re_unused many [] ''OR'' = []"
    by (simp_all add: filtered_def filter_log_def filter_try_def)
  have n: "\<not> df_empty many" "display_name ''Big'' ''Sales.xlsx'' = ''Big_Sales''"
    by (simp_all add: df_empty_def many_def display_name_def splitext_examples
        sanitize_sheet_name_def invalid_chars_def)
  have off: "process_excel_file re_unused (Inr [(''Big'', many)]) ''Sales.xlsx'' [] ''OR'' False fresh =
     (([(''Big_Sales'', many)], []), fresh\<lparr>processed_sheets := 1\<rparr>)"
    by (simp add: process_excel_file_sheets entries_def contributes_def sheet_log_def f n fresh_def)
  have h: "many\<lparr>rows := take 5 (rows many)\<rparr> =
             \<lparr>columns = [''Region'', ''Amt''], rows = [east, west, east, west, east]\<rparr>"
    by (simp add: many_def)
  from preview_agrees [of re_unused "Inr [(''Big'', many)]" "''Sales.xlsx''" "[]" "''OR''" fresh]
  have "process_excel_file re_unused (Inr [(''Big'', many)]) ''Sales.xlsx'' [] ''OR'' True fresh =
     (([(''Big_Sales'', many)],
       [(''Big_Sales'', \<lparr>columns = [''Region'', ''Amt''], rows = [east, west, east, west, east]\<rparr>)]),
      fresh\<lparr>processed_sheets := 1\<rparr>)"
    by (simp add: off h prod_eq_iff)
  with off show ?thesis by simp
qed

text \<open>
  C9. When the upload is larger than 100 * 1024 * 1024 bytes the run ends at the size
  guard: the session state is the reset one, with an empty error log and a zero count,
  and the result does not depend on what the archive holds, which is never opened.
\<close>

theorem size_guard:
  assumes "size_bytes up > 100 * (1024 * 1024)"
  shows "script_run re_other (Some up) ui st =
           (Too_large, st\<lparr>processed_sheets := 0, error_sheets := [], preview_data := None\<rparr>) \<and>
         error_sheets (snd (script_run re_other (Some up) ui st)) = [] \<and>
         script_run re_other (Some (up\<lparr>zip_open := z\<rparr>)) ui st = script_run re_other (Some up) ui st"
  using assms by (simp add: script_run_def)

theorem size_guard_witness:
  "script_run re_unused (Some oversized) idle used =
     (Too_large, used\<lparr>processed_sheets := 0, error_sheets := [], preview_data := None\<rparr>) \<and>
   error_sheets (snd (script_run re_unused (Some (oversized\<lparr>size_bytes := 104857600\<rparr>)) idle used)) =
     [''Notes in File1.xlsx: Sheet is empty'',
      ''Error reading Broken.xlsx: Corrupted or invalid Excel file'']"
proof -
  have big: "size_bytes oversized > 100 * (1024 * 1024)"
    by (simp add: oversized_def)
  have e: "endswith ''File1.xlsx'' ''.xlsx''" "endswith ''Broken.xlsx'' ''.xlsx''"
          "endswith ''in/File2.xlsx'' ''.xlsx''"
    by (simp_all add: endswith_def suffix_to_prefix)
  have "error_sheets (snd (script_run re_unused (Some (oversized\<lparr>size_bytes := 104857600\<rparr>)) idle used)) =
     [''Notes in File1.xlsx: Sheet is empty'',
      ''Error reading Broken.xlsx: Corrupted or invalid Excel file'']"
    by (simp add: script_run_def oversized_def idle_def two_files_def e get_column_options_def
        df_empty_examples log_error_def used_def split: prod.splits)
      (simp add: sales_def gaps_def Let_def)
  with size_guard [OF big, of re_unused idle used] show ?thesis by simp
qed

end
